theory Spec2Isabelle
  imports Main
begin

section \<open>JavaScript values\<close>

text \<open>
  The values that reach the exporter: span attribute values, and what \<^verbatim>\<open>JSON.parse\<close>
  returns. Numbers are modelled as integers. An object is the list of its own
  enumerable properties. A string is a list of characters, one per code unit, so that
  \<^verbatim>\<open>.length\<close> is \<open>length\<close> and \<^verbatim>\<open>.slice\<close> works on positions.
\<close>

datatype jsval =
    JUndefined
  | JNull
  | JBool bool
  | JNum int
  | JStr string
  | JArr "jsval list"
  | JObj "(string \<times> jsval) list"

datatype js_error = Error string | TypeError string | SyntaxError string

fun message :: "js_error \<Rightarrow> string" where
  "message (Error m) = m"
| "message (TypeError m) = m"
| "message (SyntaxError m) = m"

text \<open>Truthiness, as used by \<^verbatim>\<open>!x\<close>, \<^verbatim>\<open>if (x)\<close> and \<^verbatim>\<open>x || y\<close>.\<close>

fun truthy :: "jsval \<Rightarrow> bool" where
  "truthy JUndefined = False"
| "truthy JNull = False"
| "truthy (JBool b) = b"
| "truthy (JNum n) = (n \<noteq> 0)"
| "truthy (JStr s) = (s \<noteq> [])"
| "truthy (JArr xs) = True"
| "truthy (JObj kvs) = True"

text \<open>Decimal digits of a natural number, for numbers inside template strings.\<close>

function dec :: "nat \<Rightarrow> string" where
  "dec n = (if n < 10 then [''0123456789'' ! n]
            else dec (n div 10) @ [''0123456789'' ! (n mod 10)])"
  by pat_completeness auto
termination
  by (relation "measure (\<lambda>n. n)") auto

declare dec.simps [simp del]

fun join :: "string list \<Rightarrow> string" where
  "join [] = []"
| "join [s] = s"
| "join (s # t # ss) = s @ '','' @ join (t # ss)"

text \<open>
  \<^verbatim>\<open>String(v)\<close>: the string conversion of a value. A number is printed in decimal
  digits, as JavaScript prints an integer of at most 21 digits.
\<close>

fun String :: "jsval \<Rightarrow> string" where
  "String JUndefined = ''undefined''"
| "String JNull = ''null''"
| "String (JBool b) = (if b then ''true'' else ''false'')"
| "String (JNum n) = (if n < 0 then ''-'' @ dec (nat (- n)) else dec (nat n))"
| "String (JStr s) = s"
| "String (JArr xs) =
     join (map (\<lambda>x. if x = JUndefined \<or> x = JNull then [] else String x) xs)"
| "String (JObj kvs) = ''[object Object]''"

text \<open>\<^verbatim>\<open>s.slice(a, b)\<close> and \<^verbatim>\<open>s.slice(a)\<close> for indices that are not negative.\<close>

definition slice :: "string \<Rightarrow> nat \<Rightarrow> nat \<Rightarrow> string" where
  "slice s a b = take (b - a) (drop a s)"

definition slice_from :: "string \<Rightarrow> nat \<Rightarrow> string" where
  "slice_from s a = drop a s"

definition startsWith :: "string \<Rightarrow> string \<Rightarrow> bool" where
  "startsWith s p = (take (length p) s = p)"

text \<open>
  \<^verbatim>\<open>o[k] = v\<close> on an object created by the literal \<^verbatim>\<open>{}\<close>. The key
  \<^verbatim>\<open>__proto__\<close> is not stored: the assignment reaches the setter inherited from
  \<^verbatim>\<open>Object.prototype\<close>, which leaves the own properties as they are. Any other
  key replaces the property of that name, or adds it. The list keeps the order
  of insertion, which is the order of enumeration but for keys that are integers.
\<close>

fun assign :: "(string \<times> jsval) list \<Rightarrow> string \<Rightarrow> jsval \<Rightarrow> (string \<times> jsval) list" where
  "assign [] k v = [(k, v)]"
| "assign ((k', v') # kvs) k v = (if k' = k then (k, v) # kvs else (k', v') # assign kvs k v)"

definition set_property :: "(string \<times> jsval) list \<Rightarrow> string \<Rightarrow> jsval \<Rightarrow> (string \<times> jsval) list" where
  "set_property obj k v = (if k = ''__proto__'' then obj else assign obj k v)"

text \<open>\<^verbatim>\<open>o[k]\<close> on an attribute object: the own property, or \<^verbatim>\<open>undefined\<close>.\<close>

definition get_property :: "(string \<times> jsval) list \<Rightarrow> string \<Rightarrow> jsval" where
  "get_property obj k = (case map_of obj k of None \<Rightarrow> JUndefined | Some v \<Rightarrow> v)"

text \<open>
  \<^verbatim>\<open>messages.push(x)\<close>: only an array has the method. The texts of the errors
  are the engine's, here shortened for \<^verbatim>\<open>null\<close> and \<^verbatim>\<open>undefined\<close>.
\<close>

fun push :: "jsval \<Rightarrow> jsval \<Rightarrow> js_error + jsval" where
  "push (JArr xs) x = Inr (JArr (xs @ [x]))"
| "push JNull x = Inl (TypeError ''Cannot read properties of null'')"
| "push JUndefined x = Inl (TypeError ''Cannot read properties of undefined'')"
| "push v x = Inl (TypeError ''messages.push is not a function'')"

section \<open>Spans and the exporter\<close>

record span_context =
  traceId :: string

record span =
  name :: string
  spanContext :: span_context
  attributes :: "(string \<times> jsval) list"

record FreeplayConfig =
  config_baseUrl :: "string option"
  config_projectId :: string
  config_apiKey :: string
  config_environment :: string

type_synonym promise = nat

record exporter =
  baseUrl :: string
  projectId :: string
  apiKey :: string
  environment :: string
  pendingExports :: "promise list"

text \<open>The constructor; \<^verbatim>\<open>config.baseUrl || default\<close> also replaces an empty string.\<close>

definition constructor :: "FreeplayConfig \<Rightarrow> exporter" where
  "constructor config =
     \<lparr> baseUrl = (case config_baseUrl config of
                    None \<Rightarrow> ''https://app.freeplay.ai/api/v2''
                  | Some u \<Rightarrow> if u = [] then ''https://app.freeplay.ai/api/v2'' else u),
       projectId = config_projectId config,
       apiKey = config_apiKey config,
       environment = config_environment config,
       pendingExports = [] \<rparr>"

definition formatTraceIdToUUID :: "string \<Rightarrow> js_error + string" where
  "formatTraceIdToUUID t =
     (if length t \<noteq> 32 then Inl (Error ''Invalid traceId length; expected 32 characters'')
      else Inr (slice t 0 8 @ ''-'' @ slice t 8 12 @ ''-'' @ slice t 12 16 @ ''-''
                @ slice t 16 20 @ ''-'' @ slice_from t 20))"

definition inputs_prefix :: string where
  "inputs_prefix = ''ai.telemetry.metadata.inputs.''"

text \<open>The loop of \<^verbatim>\<open>extractInputs\<close> over \<^verbatim>\<open>Object.entries(attributes)\<close>.\<close>

definition extractInputs_step :: "string \<times> jsval \<Rightarrow> (string \<times> jsval) list \<Rightarrow> (string \<times> jsval) list" where
  "extractInputs_step kv inputs =
     (if startsWith (fst kv) inputs_prefix then
        (let inputKey = slice_from (fst kv) (length inputs_prefix) in
           if snd kv \<noteq> JNull \<and> snd kv \<noteq> JUndefined then set_property inputs inputKey (snd kv)
           else inputs)
      else inputs)"

definition extractInputs :: "(string \<times> jsval) list \<Rightarrow> (string \<times> jsval) list" where
  "extractInputs attrs = fold extractInputs_step attrs []"

section \<open>One iteration of the loop of export\<close>

text \<open>
  The request handed to \<^verbatim>\<open>fetch\<close>. The field \<open>body\<close> holds the payload; the
  bytes sent are its JSON text.
\<close>

record request =
  url :: string
  http_method :: string
  headers :: "(string \<times> string) list"
  body :: jsval

text \<open>
  What one iteration does: pass over the span, warn and \<^verbatim>\<open>continue\<close>, call
  \<^verbatim>\<open>fetch\<close>, or leave \<^verbatim>\<open>export\<close> by an exception.
\<close>

datatype iteration = Skip | Drop string | Deliver request | Throw js_error

definition relevant :: "span \<Rightarrow> bool" where
  "relevant s = (name s \<in> set [''ai.generateText.doGenerate'', ''ai.streamText.doStream''])"

definition assistant_message :: "jsval \<Rightarrow> jsval" where
  "assistant_message responseText =
     JObj [(''role'', JStr ''assistant''), (''content'', JStr (String responseText))]"

definition build_request :: "exporter \<Rightarrow> span \<Rightarrow> string \<Rightarrow> jsval \<Rightarrow> jsval \<Rightarrow> request" where
  "build_request self s sessionId functionId messages =
     \<lparr> url = baseUrl self @ ''/projects/'' @ projectId self @ ''/sessions/'' @ sessionId
             @ ''/completions'',
       http_method = ''POST'',
       headers = [(''Content-Type'', ''application/json''),
                  (''Authorization'', ''Bearer '' @ apiKey self)],
       body = JObj [(''messages'', messages),
                    (''inputs'', JObj (extractInputs (attributes s))),
                    (''prompt_info'',
                       JObj [(''prompt_template_version_id'', functionId),
                             (''environment'', JStr (environment self))])] \<rparr>"

text \<open>
  The body of the \<^verbatim>\<open>for\<close> loop, up to the call of \<^verbatim>\<open>fetch\<close>.
  \<open>JSON_parse\<close> is the built-in \<^verbatim>\<open>JSON.parse\<close>, a parameter: \<open>Inl\<close> is the
  SyntaxError it throws.
\<close>

definition export_body :: "exporter \<Rightarrow> (string \<Rightarrow> js_error + jsval) \<Rightarrow> span \<Rightarrow> iteration" where
  "export_body self JSON_parse s =
     (if relevant s then
        (case formatTraceIdToUUID (traceId (spanContext s)) of
           Inl e \<Rightarrow>
             Drop (''Skipping span '' @ name s @ '' due to invalid traceId: '' @ message e)
         | Inr sessionId \<Rightarrow>
             (let functionId = get_property (attributes s) ''ai.telemetry.functionId'' in
              if \<not> truthy functionId then
                Drop (''Missing ai.telemetry.functionId for span '' @ name s)
              else
                (let promptMessagesStr = get_property (attributes s) ''ai.prompt.messages'' in
                 if truthy promptMessagesStr then
                   (case JSON_parse (String promptMessagesStr) of
                      Inl e \<Rightarrow>
                        Drop (''Failed to parse ai.prompt.messages for span '' @ name s
                              @ '': '' @ message e)
                    | Inr messages \<Rightarrow>
                        (let responseText = get_property (attributes s) ''ai.response.text'' in
                         case (if truthy responseText
                               then push messages (assistant_message responseText)
                               else Inr messages) of
                           Inl e \<Rightarrow> Throw e
                         | Inr messages' \<Rightarrow>
                             Deliver (build_request self s sessionId functionId messages')))
                 else Drop (''Missing ai.prompt.messages for span '' @ name s))))
      else Skip)"

section \<open>The exporter in its event loop\<close>

datatype log_entry = Warn string | LogError string

text \<open>The outcome of a \<^verbatim>\<open>fetch\<close>: a response with its status, or a rejection.\<close>

datatype fetch_outcome = Response nat | NetworkFailure js_error

datatype settlement = Fulfilled | Rejected js_error

record export_result =
  code :: nat
  error :: "js_error option"

datatype awaiting = InForceFlush | InShutdown

text \<open>
  The exporter together with what surrounds it. A promise is the index of its
  \<^verbatim>\<open>fetch\<close> in \<open>issued\<close>, kept with the span name its handlers close over.
  \<open>settled\<close> records how the chained promise (the one stored in
  \<^verbatim>\<open>pendingExports\<close>) ended. An \<^verbatim>\<open>export\<close> call is numbered by \<open>calls\<close>:
  \<open>batches\<close> are the calls waiting in \<^verbatim>\<open>Promise.allSettled\<close>, \<open>results\<close> the
  invocations of \<^verbatim>\<open>resultCallback\<close>, \<open>thrown\<close> the calls left by an exception.
  A \<^verbatim>\<open>forceFlush\<close> or \<^verbatim>\<open>shutdown\<close> call is numbered by \<open>flush_calls\<close>:
  \<open>flushes\<close> are the calls suspended at their \<^verbatim>\<open>await\<close>, with the array
  \<^verbatim>\<open>Promise.all\<close> received, \<open>flushed\<close> how the returned promises ended.
\<close>

record world =
  this :: exporter
  issued :: "(string \<times> request) list"
  settled :: "(promise \<times> settlement) list"
  console :: "log_entry list"
  calls :: nat
  batches :: "(nat \<times> promise list) list"
  results :: "(nat \<times> export_result) list"
  thrown :: "(nat \<times> js_error) list"
  flush_calls :: nat
  flushes :: "(nat \<times> awaiting \<times> promise list) list"
  flushed :: "(nat \<times> settlement) list"

definition boot :: "FreeplayConfig \<Rightarrow> world" where
  "boot config =
     \<lparr> this = constructor config, issued = [], settled = [], console = [], calls = 0,
       batches = [], results = [], thrown = [], flush_calls = 0, flushes = [],
       flushed = [] \<rparr>"

text \<open>
  The loop of \<^verbatim>\<open>export\<close> with its local array \<^verbatim>\<open>promises\<close>. The result says
  whether the loop was left by an exception.
\<close>

fun export_loop ::
  "(string \<Rightarrow> js_error + jsval) \<Rightarrow> span list \<Rightarrow> world \<Rightarrow> promise list
     \<Rightarrow> js_error option \<times> world \<times> promise list" where
  "export_loop JSON_parse [] w promises = (None, w, promises)"
| "export_loop JSON_parse (s # ss) w promises =
     (case export_body (this w) JSON_parse s of
        Skip \<Rightarrow> export_loop JSON_parse ss w promises
      | Drop msg \<Rightarrow> export_loop JSON_parse ss (w\<lparr>console := console w @ [Warn msg]\<rparr>) promises
      | Throw e \<Rightarrow> (Some e, w, promises)
      | Deliver req \<Rightarrow>
          (let p = length (issued w) in
           export_loop JSON_parse ss
             (w\<lparr>issued := issued w @ [(name s, req)],
                this := (this w)\<lparr>pendingExports := pendingExports (this w) @ [p]\<rparr>\<rparr>)
             (promises @ [p])))"

text \<open>The code of \<^verbatim>\<open>export\<close> after the loop, for call number \<open>c\<close>.\<close>

definition export_finish :: "nat \<Rightarrow> js_error option \<times> world \<times> promise list \<Rightarrow> world" where
  "export_finish c r =
     (case r of
        (Some e, w', promises) \<Rightarrow> w'\<lparr>thrown := thrown w' @ [(c, e)]\<rparr>
      | (None, w', promises) \<Rightarrow>
          if length promises = 0
          then w'\<lparr>results := results w' @ [(c, \<lparr>code = 0, error = None\<rparr>)]\<rparr>
          else w'\<lparr>batches := batches w' @ [(c, promises)]\<rparr>)"

definition export :: "(string \<Rightarrow> js_error + jsval) \<Rightarrow> span list \<Rightarrow> world \<Rightarrow> world" where
  "export JSON_parse spans w =
     export_finish (calls w) (export_loop JSON_parse spans (w\<lparr>calls := calls w + 1\<rparr>) [])"

text \<open>The three handlers chained on the promise of \<^verbatim>\<open>fetch\<close>.\<close>

definition then_handler :: "fetch_outcome \<Rightarrow> settlement" where
  "then_handler out =
     (case out of
        Response status \<Rightarrow>
          if \<not> (200 \<le> status \<and> status \<le> 299)
          then Rejected (Error (''HTTP error! status: '' @ dec status))
          else Fulfilled
      | NetworkFailure e \<Rightarrow> Rejected e)"

definition catch_handler :: "string \<Rightarrow> settlement \<Rightarrow> log_entry list \<times> settlement" where
  "catch_handler span_name r =
     (case r of
        Rejected err \<Rightarrow>
          ([LogError (''Failed to export span '' @ span_name @ '' to Freeplay: '' @ message err)],
           Fulfilled)
      | Fulfilled \<Rightarrow> ([], Fulfilled))"

definition finally_handler :: "promise \<Rightarrow> exporter \<Rightarrow> exporter" where
  "finally_handler p self = self\<lparr>pendingExports := filter (\<lambda>q. q \<noteq> p) (pendingExports self)\<rparr>"

text \<open>The \<^verbatim>\<open>fetch\<close> of promise \<open>p\<close> ends with \<open>out\<close>, and the chain runs.\<close>

definition settle :: "promise \<Rightarrow> fetch_outcome \<Rightarrow> world \<Rightarrow> world" where
  "settle p out w =
     (if p < length (issued w) \<and> map_of (settled w) p = None then
        (let (logs, r) = catch_handler (fst (issued w ! p)) (then_handler out) in
         w\<lparr>console := console w @ logs,
           this := finally_handler p (this w),
           settled := settled w @ [(p, r)]\<rparr>)
      else w)"

definition is_settled :: "world \<Rightarrow> promise \<Rightarrow> bool" where
  "is_settled w p = (map_of (settled w) p \<noteq> None)"

definition is_rejected :: "world \<Rightarrow> promise \<Rightarrow> bool" where
  "is_rejected w p = (case map_of (settled w) p of Some (Rejected e) \<Rightarrow> True | _ \<Rightarrow> False)"

text \<open>The reaction to \<^verbatim>\<open>Promise.allSettled(promises)\<close> of call \<open>c\<close>.\<close>

definition allSettled_then :: "nat \<Rightarrow> world \<Rightarrow> world" where
  "allSettled_then c w =
     (case map_of (batches w) c of
        None \<Rightarrow> w
      | Some promises \<Rightarrow>
          if list_all (is_settled w) promises then
            (let failed = filter (is_rejected w) promises;
                 result =
                   (if length failed > 0
                    then \<lparr>code = 1,
                          error = Some (Error (''Failed to export '' @ dec (length failed)
                                               @ '' span(s)''))\<rparr>
                    else \<lparr>code = 0, error = None\<rparr>)
             in w\<lparr>batches := filter (\<lambda>b. fst b \<noteq> c) (batches w),
                  results := results w @ [(c, result)]\<rparr>)
          else w)"

text \<open>
  \<^verbatim>\<open>forceFlush\<close> and \<^verbatim>\<open>shutdown\<close> up to their \<^verbatim>\<open>await\<close>:
  \<^verbatim>\<open>Promise.all\<close> reads the array as it is at the call.
\<close>

definition forceFlush :: "world \<Rightarrow> world" where
  "forceFlush w =
     w\<lparr>flush_calls := flush_calls w + 1,
       flushes := flushes w @ [(flush_calls w, InForceFlush, pendingExports (this w))]\<rparr>"

definition shutdown :: "world \<Rightarrow> world" where
  "shutdown w =
     w\<lparr>flush_calls := flush_calls w + 1,
       flushes := flushes w @ [(flush_calls w, InShutdown, pendingExports (this w))]\<rparr>"

definition rejections :: "world \<Rightarrow> promise list \<Rightarrow> js_error list" where
  "rejections w ps =
     List.map_filter
       (\<lambda>p. case map_of (settled w) p of Some (Rejected e) \<Rightarrow> Some e | _ \<Rightarrow> None) ps"

text \<open>
  The code after the \<^verbatim>\<open>await\<close> of call \<open>f\<close>: \<^verbatim>\<open>Promise.all\<close> rejects with
  the first rejection, and is fulfilled once every promise of the array is.
\<close>

definition resume :: "nat \<Rightarrow> world \<Rightarrow> world" where
  "resume f w =
     (case map_of (flushes w) f of
        None \<Rightarrow> w
      | Some (kind, snapshot) \<Rightarrow>
          (case rejections w snapshot of
             e # es \<Rightarrow>
               w\<lparr>flushes := filter (\<lambda>b. fst b \<noteq> f) (flushes w),
                 flushed := flushed w @ [(f, Rejected e)]\<rparr>
           | [] \<Rightarrow>
               if list_all (is_settled w) snapshot then
                 w\<lparr>flushes := filter (\<lambda>b. fst b \<noteq> f) (flushes w),
                   flushed := flushed w @ [(f, Fulfilled)],
                   this := (if kind = InShutdown then (this w)\<lparr>pendingExports := []\<rparr>
                            else this w)\<rparr>
               else w))"

text \<open>
  What can happen next. A call of the host (\<^verbatim>\<open>export\<close>, \<^verbatim>\<open>forceFlush\<close>,
  \<^verbatim>\<open>shutdown\<close>) runs to its return or to its \<^verbatim>\<open>await\<close>. \<open>Settles p out\<close>: the
  \<^verbatim>\<open>fetch\<close> of promise \<open>p\<close> ends with \<open>out\<close> and the handlers chained on it run.
  \<open>BatchSettled c\<close>: the reaction to \<^verbatim>\<open>Promise.allSettled\<close> of call \<open>c\<close> runs.
  \<open>Resumes f\<close>: call \<open>f\<close> goes on after its \<^verbatim>\<open>await\<close>. An event that cannot
  happen in a world (a promise that has settled, a batch or a flush that still waits
  for a delivery) leaves the world as it is. The handlers of one chain run in
  consecutive microtasks; here they are one step.
\<close>

datatype event =
    CallExport "span list"
  | Settles promise fetch_outcome
  | BatchSettled nat
  | CallForceFlush
  | CallShutdown
  | Resumes nat

definition step :: "(string \<Rightarrow> js_error + jsval) \<Rightarrow> event \<Rightarrow> world \<Rightarrow> world" where
  "step JSON_parse e w =
     (case e of
        CallExport spans \<Rightarrow> export JSON_parse spans w
      | Settles p out \<Rightarrow> settle p out w
      | BatchSettled c \<Rightarrow> allSettled_then c w
      | CallForceFlush \<Rightarrow> forceFlush w
      | CallShutdown \<Rightarrow> shutdown w
      | Resumes f \<Rightarrow> resume f w)"

text \<open>The world after a sequence of events, the first event first.\<close>

definition run :: "(string \<Rightarrow> js_error + jsval) \<Rightarrow> event list \<Rightarrow> world \<Rightarrow> world" where
  "run JSON_parse evs w = fold (step JSON_parse) evs w"

text \<open>The deliveries issued so far whose promise has not settled.\<close>

definition in_flight :: "world \<Rightarrow> promise list" where
  "in_flight w = filter (\<lambda>p. map_of (settled w) p = None) [0..<length (issued w)]"

section \<open>Predicates on spans and worlds\<close>

text \<open>A span with one attribute removed.\<close>

definition without :: "string \<Rightarrow> span \<Rightarrow> span" where
  "without k s = s\<lparr>attributes := filter (\<lambda>kv. fst kv \<noteq> k) (attributes s)\<rparr>"

text \<open>
  A recognized span with malformed input: an invalid trace id, a required attribute
  that is missing, or prompt messages that \<^verbatim>\<open>JSON.parse\<close> rejects.
\<close>

definition malformed :: "(string \<Rightarrow> js_error + jsval) \<Rightarrow> span \<Rightarrow> bool" where
  "malformed JSON_parse s =
     (relevant s \<and>
      (length (traceId (spanContext s)) \<noteq> 32
       \<or> get_property (attributes s) ''ai.telemetry.functionId'' = JUndefined
       \<or> get_property (attributes s) ''ai.prompt.messages'' = JUndefined
       \<or> isl (JSON_parse (String (get_property (attributes s) ''ai.prompt.messages'')))))"

text \<open>A span that passes the filter and every check of the loop body.\<close>

definition matched_and_valid :: "(string \<Rightarrow> js_error + jsval) \<Rightarrow> span \<Rightarrow> bool" where
  "matched_and_valid JSON_parse s =
     (relevant s
      \<and> length (traceId (spanContext s)) = 32
      \<and> truthy (get_property (attributes s) ''ai.telemetry.functionId'')
      \<and> truthy (get_property (attributes s) ''ai.prompt.messages'')
      \<and> \<not> isl (JSON_parse (String (get_property (attributes s) ''ai.prompt.messages''))))"

definition is_drop :: "iteration \<Rightarrow> bool" where
  "is_drop i = (case i of Drop msg \<Rightarrow> True | _ \<Rightarrow> False)"

text \<open>A world with its console output erased, to compare worlds up to logging.\<close>

definition silenced :: "world \<Rightarrow> world" where
  "silenced w = w\<lparr>console := []\<rparr>"

section \<open>Sample inputs\<close>

text \<open>
  \<^verbatim>\<open>JSON.parse\<close> on the three texts the scenarios below use: the empty array, the
  empty object, and a text that is not JSON. It stands for \<^verbatim>\<open>JSON.parse\<close> on these
  texts only.
\<close>

definition JSON_parse_sample :: "string \<Rightarrow> js_error + jsval" where
  "JSON_parse_sample text =
     (if text = ''[]'' then Inr (JArr [])
      else if text = ''{}'' then Inr (JObj [])
      else Inl (SyntaxError ''Unexpected token''))"

definition sample_config :: FreeplayConfig where
  "sample_config =
     \<lparr> config_baseUrl = None, config_projectId = ''p1'', config_apiKey = ''k'',
       config_environment = ''prod'' \<rparr>"

definition sample_span :: "string \<Rightarrow> (string \<times> jsval) list \<Rightarrow> span" where
  "sample_span nm attrs =
     \<lparr> name = nm,
       spanContext = \<lparr> traceId = ''0123456789abcdef0123456789abcdef'' \<rparr>,
       attributes = attrs \<rparr>"

definition valid_span :: span where
  "valid_span =
     sample_span ''ai.generateText.doGenerate''
       [(''ai.telemetry.functionId'', JStr ''f1''), (''ai.prompt.messages'', JStr ''[]'')]"

definition span_without_messages :: span where
  "span_without_messages =
     sample_span ''ai.streamText.doStream'' [(''ai.telemetry.functionId'', JStr ''f1'')]"

definition unrecognized_span :: span where
  "unrecognized_span =
     sample_span ''http.request''
       [(''ai.telemetry.functionId'', JStr ''f1''), (''ai.prompt.messages'', JStr ''[]'')]"

definition span_zero_functionId :: span where
  "span_zero_functionId =
     sample_span ''ai.generateText.doGenerate''
       [(''ai.telemetry.functionId'', JNum 0), (''ai.prompt.messages'', JStr ''[]'')]"

definition span_empty_messages :: span where
  "span_empty_messages =
     sample_span ''ai.generateText.doGenerate''
       [(''ai.telemetry.functionId'', JStr ''f1''), (''ai.prompt.messages'', JStr [])]"

definition span_only_empty_messages :: span where
  "span_only_empty_messages =
     sample_span ''ai.streamText.doStream'' [(''ai.prompt.messages'', JStr [])]"

definition span_object_messages :: span where
  "span_object_messages =
     sample_span ''ai.generateText.doGenerate''
       [(''ai.telemetry.functionId'', JStr ''f1''), (''ai.prompt.messages'', JStr ''{}''),
        (''ai.response.text'', JStr ''hi'')]"

section \<open>Invariants\<close>

text \<open>
  What holds of every world the exporter reaches: the in-flight array has no duplicates
  and holds only unsettled deliveries, every settled promise is fulfilled, so is every
  promise returned by a flush, every callback received success, and the waiting
  flushes are numbered below the counter.
\<close>

definition sound :: "world \<Rightarrow> bool" where
  "sound w =
     (distinct (pendingExports (this w))
      \<and> set (pendingExports (this w)) \<subseteq> set (in_flight w)
      \<and> list_all (\<lambda>pr. fst pr < length (issued w) \<and> snd pr = Fulfilled) (settled w)
      \<and> list_all (\<lambda>fr. snd fr = Fulfilled) (flushed w)
      \<and> list_all (\<lambda>cr. snd cr = \<lparr>code = 0, error = None\<rparr>) (results w)
      \<and> list_all (\<lambda>b. fst b < flush_calls w) (flushes w))"








text \<open>
  The entry \<^verbatim>\<open>extractInputs\<close> keeps under the name \<open>q\<close>, read off the attributes.
\<close>

definition selected :: "(string \<times> jsval) list \<Rightarrow> string \<Rightarrow> jsval option" where
  "selected attrs q =
     (if q = ''__proto__'' then None
      else case map_of attrs (inputs_prefix @ q) of
             None \<Rightarrow> None
           | Some v \<Rightarrow> if v \<noteq> JNull \<and> v \<noteq> JUndefined then Some v else None)"

section \<open>Session ids\<close>

lemma seg_nth:
  assumes "length a = n"
  shows "(a @ x # r) ! i = (if i < n then a ! i else if i = n then x else r ! (i - Suc n))"
  using assms by (auto simp: nth_append nth_Cons')

lemma regroup:
  shows "take 8 t @ take 4 (drop 8 t) @ take 4 (drop 12 t) @ take 4 (drop 16 t) @ drop 20 t = t"
proof -
  have 1: "take 4 (drop 16 t) @ drop 20 t = drop 16 t"
    using append_take_drop_id[of 4 "drop 16 t"] by simp
  have 2: "take 4 (drop 12 t) @ drop 16 t = drop 12 t"
    using append_take_drop_id[of 4 "drop 12 t"] by simp
  have 3: "take 4 (drop 8 t) @ drop 12 t = drop 8 t"
    using append_take_drop_id[of 4 "drop 8 t"] by simp
  show ?thesis by (simp only: 1 2 3 append_take_drop_id)
qed

lemma hex_not_hyphen: "c \<in> set ''0123456789abcdef'' \<Longrightarrow> c \<noteq> CHR ''-''"
  by auto

lemma uuid_hyphens:
  assumes len: "length t = 32" and i: "i < 36"
    and nohy: "\<And>j. j < 32 \<Longrightarrow> t ! j \<noteq> CHR ''-''"
  shows "((take 8 t @ CHR ''-'' # take 4 (drop 8 t) @ CHR ''-'' # take 4 (drop 12 t) @ CHR ''-''
                # take 4 (drop 16 t) @ CHR ''-'' # drop 20 t) ! i = CHR ''-'')
         = (i = 8 \<or> i = 13 \<or> i = 18 \<or> i = 23)"
proof -
  have a: "length (take 8 t) = 8" and b: "length (take 4 (drop 8 t)) = 4"
    and c: "length (take 4 (drop 12 t)) = 4" and d: "length (take 4 (drop 16 t)) = 4"
    using len by simp_all
  consider "i < 8" | "i = 8" | "8 < i \<and> i < 13" | "i = 13" | "13 < i \<and> i < 18" | "i = 18"
    | "18 < i \<and> i < 23" | "i = 23" | "23 < i"
    by linarith
  then show ?thesis
  proof cases
    case 1
    then show ?thesis using nohy[of i] len by (simp add: seg_nth[OF a])
  next
    case 2
    then show ?thesis by (simp add: seg_nth[OF a])
  next
    case 3
    then have "i = 9 + (i - 9)" "i - 9 < 4" using i by auto
    then obtain k where k: "i = 9 + k" "k < 4" by blast
    show ?thesis using nohy[of "8 + k"] len k
      by (simp add: seg_nth[OF a] seg_nth[OF b])
  next
    case 4
    then show ?thesis by (simp add: seg_nth[OF a] seg_nth[OF b])
  next
    case 5
    then have "i = 14 + (i - 14)" "i - 14 < 4" using i by auto
    then obtain k where k: "i = 14 + k" "k < 4" by blast
    show ?thesis using nohy[of "12 + k"] len k
      by (simp add: seg_nth[OF a] seg_nth[OF b] seg_nth[OF c])
  next
    case 6
    then show ?thesis by (simp add: seg_nth[OF a] seg_nth[OF b] seg_nth[OF c])
  next
    case 7
    then have "i = 19 + (i - 19)" "i - 19 < 4" using i by auto
    then obtain k where k: "i = 19 + k" "k < 4" by blast
    show ?thesis using nohy[of "16 + k"] len k
      by (simp add: seg_nth[OF a] seg_nth[OF b] seg_nth[OF c] seg_nth[OF d])
  next
    case 8
    then show ?thesis by (simp add: seg_nth[OF a] seg_nth[OF b] seg_nth[OF c] seg_nth[OF d])
  next
    case 9
    then have "i = 24 + (i - 24)" "i - 24 < 12" using i by auto
    then obtain k where k: "i = 24 + k" "k < 12" by blast
    show ?thesis using nohy[of "20 + k"] len k
      by (simp add: seg_nth[OF a] seg_nth[OF b] seg_nth[OF c] seg_nth[OF d])
  qed
qed

text \<open>
  Claim C4. For a trace id of 32 lowercase hexadecimal characters,
  \<^verbatim>\<open>formatTraceIdToUUID\<close> returns a string of 36 characters whose hyphens stand
  at positions 8, 13, 18 and 23 and nowhere else, and whose other characters are the
  characters of the trace id in their order; so the trace id is read back from the
  result by position.
\<close>

theorem formatTraceIdToUUID_format:
  assumes len: "length t = 32" and hex: "set t \<subseteq> set ''0123456789abcdef''"
  shows "\<exists>u. formatTraceIdToUUID t = Inr u \<and> length u = 36
           \<and> (\<forall>i<36. (u ! i = CHR ''-'') = (i = 8 \<or> i = 13 \<or> i = 18 \<or> i = 23))
           \<and> take 8 u @ take 4 (drop 9 u) @ take 4 (drop 14 u) @ take 4 (drop 19 u) @ drop 24 u = t"
proof -
  define u where "u = take 8 t @ CHR ''-'' # take 4 (drop 8 t) @ CHR ''-'' # take 4 (drop 12 t)
                @ CHR ''-'' # take 4 (drop 16 t) @ CHR ''-'' # drop 20 t"
  have fmt: "formatTraceIdToUUID t = Inr u"
    using len by (simp add: formatTraceIdToUUID_def slice_def slice_from_def u_def)
  have lu: "length u = 36"
    using len by (simp add: u_def)
  have nohy: "t ! j \<noteq> CHR ''-''" if "j < 32" for j
  proof -
    from that len have "t ! j \<in> set t" by simp
    with hex have "t ! j \<in> set ''0123456789abcdef''" by blast
    then show ?thesis by (rule hex_not_hyphen)
  qed
  have pos: "\<forall>i<36. (u ! i = CHR ''-'') = (i = 8 \<or> i = 13 \<or> i = 18 \<or> i = 23)"
    unfolding u_def using uuid_hyphens[OF len _ nohy] by blast
  have "take 8 u @ take 4 (drop 9 u) @ take 4 (drop 14 u) @ take 4 (drop 19 u) @ drop 24 u
        = take 8 t @ take 4 (drop 8 t) @ take 4 (drop 12 t) @ take 4 (drop 16 t) @ drop 20 t"
    using len by (simp add: u_def)
  then have orig: "take 8 u @ take 4 (drop 9 u) @ take 4 (drop 14 u) @ take 4 (drop 19 u)
                   @ drop 24 u = t"
    by (simp only: regroup)
  from fmt lu pos orig show ?thesis by blast
qed

theorem formatTraceIdToUUID_format_witness:
  "length ''0123456789abcdef0123456789abcdef'' = 32
   \<and> set ''0123456789abcdef0123456789abcdef'' \<subseteq> set ''0123456789abcdef''
   \<and> formatTraceIdToUUID ''0123456789abcdef0123456789abcdef''
       = Inr ''01234567-89ab-cdef-0123-456789abcdef''
   \<and> (\<exists>u. formatTraceIdToUUID ''0123456789abcdef0123456789abcdef'' = Inr u \<and> length u = 36)"
  using formatTraceIdToUUID_format [of "''0123456789abcdef0123456789abcdef''"]
  by (simp add: formatTraceIdToUUID_def slice_def slice_from_def)

text \<open>
  Claim C8. For a string whose length is not 32, \<^verbatim>\<open>formatTraceIdToUUID\<close>
  throws the invalid-trace-id error and returns no value.
\<close>

theorem formatTraceIdToUUID_invalid_length:
  "length t \<noteq> 32 \<Longrightarrow>
     formatTraceIdToUUID t = Inl (Error ''Invalid traceId length; expected 32 characters'')"
  by (simp add: formatTraceIdToUUID_def)

theorem formatTraceIdToUUID_invalid_length_witness:
  "length ''0123456789abcdef'' \<noteq> 32
   \<and> formatTraceIdToUUID ''0123456789abcdef''
       = Inl (Error ''Invalid traceId length; expected 32 characters'')
   \<and> formatTraceIdToUUID [] = Inl (Error ''Invalid traceId length; expected 32 characters'')"
  using formatTraceIdToUUID_invalid_length [of "''0123456789abcdef''"]
        formatTraceIdToUUID_invalid_length [of "[]"]
  by simp

section \<open>Inputs extraction\<close>

lemma map_of_assign: "map_of (assign obj k v) q = (if q = k then Some v else map_of obj q)"
  by (induction obj) auto

lemma map_of_set_property:
  "map_of (set_property obj k v) q
   = (if k \<noteq> ''__proto__'' \<and> q = k then Some v else map_of obj q)"
  by (simp add: set_property_def map_of_assign)

lemma startsWith_iff: "startsWith key p \<longleftrightarrow> (\<exists>suffix. key = p @ suffix)"
proof
  assume "startsWith key p"
  then have "key = p @ drop (length p) key"
    by (metis append_take_drop_id startsWith_def)
  then show "\<exists>suffix. key = p @ suffix" ..
next
  assume "\<exists>suffix. key = p @ suffix"
  then show "startsWith key p" by (auto simp: startsWith_def)
qed

lemma map_of_extractInputs_step:
  "map_of (extractInputs_step (key, v) acc) q
   = (if key = inputs_prefix @ q \<and> q \<noteq> ''__proto__'' \<and> v \<noteq> JNull \<and> v \<noteq> JUndefined
      then Some v else map_of acc q)"
proof (cases "startsWith key inputs_prefix")
  case False
  then have "key \<noteq> inputs_prefix @ q" by (auto simp: startsWith_iff)
  with False show ?thesis by (simp add: extractInputs_step_def)
next
  case True
  then obtain suffix where key: "key = inputs_prefix @ suffix" by (auto simp: startsWith_iff)
  show ?thesis
    using True by (auto simp: extractInputs_step_def key slice_from_def map_of_set_property Let_def)
qed

lemma map_of_fold_extractInputs_step:
  "distinct (map fst attrs) \<Longrightarrow>
   map_of (fold extractInputs_step attrs acc) q
   = (case selected attrs q of Some v \<Rightarrow> Some v | None \<Rightarrow> map_of acc q)"
proof (induction attrs arbitrary: acc)
  case Nil
  show ?case by (simp add: selected_def)
next
  case (Cons kv attrs)
  obtain key v where kv: "kv = (key, v)" by (cases kv)
  from Cons.prems have d: "distinct (map fst attrs)" and fresh: "map_of attrs key = None"
    by (auto simp: kv map_of_eq_None_iff)
  have lhs: "map_of (fold extractInputs_step (kv # attrs) acc) q
        = (case selected attrs q of Some x \<Rightarrow> Some x
           | None \<Rightarrow> map_of (extractInputs_step (key, v) acc) q)"
    using Cons.IH[OF d, of "extractInputs_step (key, v) acc"] by (simp add: kv)
  show ?case
  proof (cases "key = inputs_prefix @ q")
    case True
    with fresh have none: "selected attrs q = None" by (simp add: selected_def)
    have "selected (kv # attrs) q
          = (if q \<noteq> ''__proto__'' \<and> v \<noteq> JNull \<and> v \<noteq> JUndefined then Some v else None)"
      using True by (simp add: kv selected_def)
    then show ?thesis
      unfolding lhs none using True by (simp add: map_of_extractInputs_step)
  next
    case False
    then have "selected (kv # attrs) q = selected attrs q" by (simp add: kv selected_def)
    then show ?thesis
      unfolding lhs using False by (simp add: map_of_extractInputs_step split: option.splits)
  qed
qed

lemma extractInputs_entries:
  "distinct (map fst attrs) \<Longrightarrow> map_of (extractInputs attrs) q = selected attrs q"
  by (simp add: extractInputs_def map_of_fold_extractInputs_step split: option.splits)

lemma extractInputs_example:
  "extractInputs [(''ai.telemetry.metadata.inputs.user'', JStr ''bob''),
                  (''ai.telemetry.metadata.inputs.age'', JNum 5),
                  (''other.key'', JStr ''x'')]
   = [(''user'', JStr ''bob''), (''age'', JNum 5)]"
  by (simp add: extractInputs_def extractInputs_step_def startsWith_def inputs_prefix_def
      slice_from_def set_property_def)

text \<open>
  Claim C7, at the input where the code departs from it. The attribute key
  \<^verbatim>\<open>ai.telemetry.metadata.inputs.__proto__\<close> begins with the prefix and its value is
  a string, yet \<^verbatim>\<open>extractInputs\<close> returns an object with no entry.
\<close>

theorem extractInputs_proto_not_stored:
  "extractInputs [(''ai.telemetry.metadata.inputs.__proto__'', JStr ''x'')] = []
   \<and> startsWith ''ai.telemetry.metadata.inputs.__proto__'' inputs_prefix"
  by (simp add: extractInputs_def extractInputs_step_def startsWith_def inputs_prefix_def
      slice_from_def set_property_def)

section \<open>The loop body\<close>

lemma map_of_filter_same: "map_of (filter (\<lambda>kv. fst kv \<noteq> k) xs) k = None"
  by (induction xs) auto

lemma get_property_without_same: "get_property (attributes (without k s)) k = JUndefined"
  by (simp add: get_property_def without_def map_of_filter_same)

lemma map_of_filter_other:
  "k' \<noteq> k \<Longrightarrow> map_of (filter (\<lambda>kv. fst kv \<noteq> k) xs) k' = map_of xs k'"
  by (induction xs) auto

lemma get_property_without_other:
  "k' \<noteq> k \<Longrightarrow> get_property (attributes (without k s)) k' = get_property (attributes s) k'"
  by (simp add: get_property_def without_def map_of_filter_other)

lemma without_frame [simp]:
  "name (without k s) = name s" "spanContext (without k s) = spanContext s"
  "relevant (without k s) = relevant s"
  by (simp_all add: without_def relevant_def)

lemma export_body_invalid_traceId:
  "relevant s \<Longrightarrow> length (traceId (spanContext s)) \<noteq> 32 \<Longrightarrow>
   export_body self P s = Drop (''Skipping span '' @ name s
      @ '' due to invalid traceId: Invalid traceId length; expected 32 characters'')"
  by (simp add: export_body_def formatTraceIdToUUID_def)

lemma export_body_falsy_functionId:
  "relevant s \<Longrightarrow> length (traceId (spanContext s)) = 32 \<Longrightarrow>
   \<not> truthy (get_property (attributes s) ''ai.telemetry.functionId'') \<Longrightarrow>
   export_body self P s = Drop (''Missing ai.telemetry.functionId for span '' @ name s)"
  by (simp add: export_body_def formatTraceIdToUUID_def)

lemma export_body_falsy_promptMessages:
  "relevant s \<Longrightarrow> length (traceId (spanContext s)) = 32 \<Longrightarrow>
   truthy (get_property (attributes s) ''ai.telemetry.functionId'') \<Longrightarrow>
   \<not> truthy (get_property (attributes s) ''ai.prompt.messages'') \<Longrightarrow>
   export_body self P s = Drop (''Missing ai.prompt.messages for span '' @ name s)"
  by (simp add: export_body_def formatTraceIdToUUID_def)

lemma export_body_parse_error:
  "relevant s \<Longrightarrow> length (traceId (spanContext s)) = 32 \<Longrightarrow>
   truthy (get_property (attributes s) ''ai.telemetry.functionId'') \<Longrightarrow>
   truthy (get_property (attributes s) ''ai.prompt.messages'') \<Longrightarrow>
   P (String (get_property (attributes s) ''ai.prompt.messages'')) = Inl e \<Longrightarrow>
   export_body self P s = Drop (''Failed to parse ai.prompt.messages for span '' @ name s
                                @ '': '' @ message e)"
  by (simp add: export_body_def formatTraceIdToUUID_def)



lemma invalid_is_drop:
  assumes rel: "relevant s" and inv: "\<not> matched_and_valid P s"
  shows "is_drop (export_body self P s)"
proof (cases "length (traceId (spanContext s)) = 32")
  case False
  with rel show ?thesis by (simp add: export_body_invalid_traceId is_drop_def)
next
  case len: True
  show ?thesis
  proof (cases "truthy (get_property (attributes s) ''ai.telemetry.functionId'')")
    case False
    with rel len show ?thesis by (simp add: export_body_falsy_functionId is_drop_def)
  next
    case fid: True
    show ?thesis
    proof (cases "truthy (get_property (attributes s) ''ai.prompt.messages'')")
      case False
      with rel len fid show ?thesis by (simp add: export_body_falsy_promptMessages is_drop_def)
    next
      case pm: True
      from rel len fid pm inv
      have "isl (P (String (get_property (attributes s) ''ai.prompt.messages'')))"
        by (simp add: matched_and_valid_def)
      then obtain e where "P (String (get_property (attributes s) ''ai.prompt.messages'')) = Inl e"
        by (auto simp: isl_def)
      with rel len fid pm show ?thesis by (simp add: export_body_parse_error is_drop_def)
    qed
  qed
qed

lemma malformed_is_drop:
  assumes "malformed P s"
  shows "is_drop (export_body self P s)"
proof -
  from assms have "relevant s" and "\<not> matched_and_valid P s"
    by (auto simp: malformed_def matched_and_valid_def)
  then show ?thesis by (rule invalid_is_drop)
qed

lemma export_loop_Drop:
  "export_body (this w) P s = Drop msg \<Longrightarrow>
   export_loop P (s # rest) w ps = export_loop P rest (w\<lparr>console := console w @ [Warn msg]\<rparr>) ps"
  by simp


lemma is_drop_loop:
  "is_drop (export_body (this w) P s) \<Longrightarrow>
   \<exists>msg. export_body (this w) P s = Drop msg
     \<and> export_loop P (s # rest) w ps
         = export_loop P rest (w\<lparr>console := console w @ [Warn msg]\<rparr>) ps"
  by (cases "export_body (this w) P s") (simp_all add: is_drop_def)

lemma export_body_empty_promptMessages:
  assumes rel: "relevant s" and len: "length (traceId (spanContext s)) = 32"
    and pm: "get_property (attributes s) ''ai.prompt.messages'' = JStr []"
  shows "is_drop (export_body self P s)"
    and "export_body self P s = export_body self P (without ''ai.prompt.messages'' s)"
proof -
  let ?s' = "without ''ai.prompt.messages'' s"
  have rel': "relevant ?s'" and len': "length (traceId (spanContext ?s')) = 32"
    using rel len by simp_all
  have fid': "get_property (attributes ?s') ''ai.telemetry.functionId''
              = get_property (attributes s) ''ai.telemetry.functionId''"
    by (simp add: get_property_without_other)
  have pm': "\<not> truthy (get_property (attributes ?s') ''ai.prompt.messages'')"
    by (simp add: get_property_without_same)
  from pm have falsy: "\<not> truthy (get_property (attributes s) ''ai.prompt.messages'')" by simp
  show "is_drop (export_body self P s)"
    using rel by (rule invalid_is_drop) (simp add: matched_and_valid_def falsy)
  show "export_body self P s = export_body self P ?s'"
  proof (cases "truthy (get_property (attributes s) ''ai.telemetry.functionId'')")
    case True
    have "export_body self P s = Drop (''Missing ai.prompt.messages for span '' @ name s)"
      using rel len True falsy by (rule export_body_falsy_promptMessages)
    moreover
    have "export_body self P ?s' = Drop (''Missing ai.prompt.messages for span '' @ name ?s')"
      using rel' len' _ pm' by (rule export_body_falsy_promptMessages) (simp add: fid' True)
    ultimately show ?thesis by simp
  next
    case False
    have "export_body self P s = Drop (''Missing ai.telemetry.functionId for span '' @ name s)"
      using rel len False by (rule export_body_falsy_functionId)
    moreover
    have "export_body self P ?s' = Drop (''Missing ai.telemetry.functionId for span '' @ name ?s')"
      using rel' len' by (rule export_body_falsy_functionId) (simp add: fid' False)
    ultimately show ?thesis by simp
  qed
qed

text \<open>
  Claim C10. For a recognized span with a valid trace id, a function id that is the
  empty string or the number 0 is treated as the attribute being absent, and so are
  prompt messages that are the empty string, whatever the other attributes are: the
  iteration is the same as for the span without the attribute, it logs a warning (the
  "Missing" warning of the attribute, when the checks before it pass), issues no
  request, and the loop goes on with the rest of the batch.
\<close>

theorem falsy_required_attribute_dropped:
  assumes rel: "relevant s" and len: "length (traceId (spanContext s)) = 32"
  shows
    "(get_property (attributes s) ''ai.telemetry.functionId'' = JStr []
        \<or> get_property (attributes s) ''ai.telemetry.functionId'' = JNum 0 \<longrightarrow>
        export_body (this w) P s = Drop (''Missing ai.telemetry.functionId for span '' @ name s)
      \<and> export_body (this w) P s = export_body (this w) P (without ''ai.telemetry.functionId'' s)
      \<and> export_loop P (s # rest) w ps
          = export_loop P rest
              (w\<lparr>console := console w
                    @ [Warn (''Missing ai.telemetry.functionId for span '' @ name s)]\<rparr>) ps)
     \<and> (get_property (attributes s) ''ai.prompt.messages'' = JStr [] \<longrightarrow>
        is_drop (export_body (this w) P s)
      \<and> export_body (this w) P s = export_body (this w) P (without ''ai.prompt.messages'' s)
      \<and> (\<exists>msg. export_body (this w) P s = Drop msg
            \<and> export_loop P (s # rest) w ps
                = export_loop P rest (w\<lparr>console := console w @ [Warn msg]\<rparr>) ps))
     \<and> (truthy (get_property (attributes s) ''ai.telemetry.functionId'')
        \<and> get_property (attributes s) ''ai.prompt.messages'' = JStr [] \<longrightarrow>
        export_body (this w) P s = Drop (''Missing ai.prompt.messages for span '' @ name s)
      \<and> export_body (this w) P s = export_body (this w) P (without ''ai.prompt.messages'' s)
      \<and> export_loop P (s # rest) w ps
          = export_loop P rest
              (w\<lparr>console := console w
                    @ [Warn (''Missing ai.prompt.messages for span '' @ name s)]\<rparr>) ps)"
proof (intro conjI impI)
  assume f: "get_property (attributes s) ''ai.telemetry.functionId'' = JStr []
             \<or> get_property (attributes s) ''ai.telemetry.functionId'' = JNum 0"
  then have falsy: "\<not> truthy (get_property (attributes s) ''ai.telemetry.functionId'')"
    by auto
  show d: "export_body (this w) P s
           = Drop (''Missing ai.telemetry.functionId for span '' @ name s)"
    using rel len falsy by (rule export_body_falsy_functionId)
  have "export_body (this w) P (without ''ai.telemetry.functionId'' s)
        = Drop (''Missing ai.telemetry.functionId for span '' @ name s)"
    using export_body_falsy_functionId
            [of "without ''ai.telemetry.functionId'' s" "this w" P] rel len
    by (simp add: get_property_without_same)
  with d show "export_body (this w) P s
               = export_body (this w) P (without ''ai.telemetry.functionId'' s)"
    by simp
  from d show "export_loop P (s # rest) w ps
          = export_loop P rest
              (w\<lparr>console := console w
                    @ [Warn (''Missing ai.telemetry.functionId for span '' @ name s)]\<rparr>) ps"
    by (rule export_loop_Drop)
next
  assume pm: "get_property (attributes s) ''ai.prompt.messages'' = JStr []"
  show dr: "is_drop (export_body (this w) P s)"
    using rel len pm by (rule export_body_empty_promptMessages(1))
  show "export_body (this w) P s = export_body (this w) P (without ''ai.prompt.messages'' s)"
    using rel len pm by (rule export_body_empty_promptMessages(2))
  from dr show "\<exists>msg. export_body (this w) P s = Drop msg
            \<and> export_loop P (s # rest) w ps
                = export_loop P rest (w\<lparr>console := console w @ [Warn msg]\<rparr>) ps"
    by (rule is_drop_loop)
next
  assume a: "truthy (get_property (attributes s) ''ai.telemetry.functionId'')
             \<and> get_property (attributes s) ''ai.prompt.messages'' = JStr []"
  then have fid: "truthy (get_property (attributes s) ''ai.telemetry.functionId'')"
    and pm: "get_property (attributes s) ''ai.prompt.messages'' = JStr []"
    and falsy: "\<not> truthy (get_property (attributes s) ''ai.prompt.messages'')"
    by auto
  show d: "export_body (this w) P s = Drop (''Missing ai.prompt.messages for span '' @ name s)"
    using rel len fid falsy by (rule export_body_falsy_promptMessages)
  show "export_body (this w) P s = export_body (this w) P (without ''ai.prompt.messages'' s)"
    using rel len pm by (rule export_body_empty_promptMessages(2))
  from d show "export_loop P (s # rest) w ps
          = export_loop P rest
              (w\<lparr>console := console w
                    @ [Warn (''Missing ai.prompt.messages for span '' @ name s)]\<rparr>) ps"
    by (rule export_loop_Drop)
qed

lemma export_loop_append:
  "export_loop P (xs @ zs) w ps =
     (case export_loop P xs w ps of
        (None, v, qs) \<Rightarrow> export_loop P zs v qs
      | (Some e, v, qs) \<Rightarrow> (Some e, v, qs))"
proof (induction xs arbitrary: w ps)
  case Nil
  show ?case by simp
next
  case (Cons s xs)
  show ?case
    by (cases "export_body (this w) P s") (simp_all add: Cons.IH Let_def)
qed

lemma export_loop_console:
  "\<exists>c'. export_loop P ss (w\<lparr>console := c\<rparr>) ps =
     (case export_loop P ss w ps of (e, v, qs) \<Rightarrow> (e, v\<lparr>console := c'\<rparr>, qs))"
proof (induction ss arbitrary: w c ps)
  case Nil
  show ?case by (rule exI[of _ c]) simp
next
  case (Cons s ss)
  show ?case
  proof (cases "export_body (this w) P s")
    case Skip
    have "\<exists>c'. export_loop P ss (w\<lparr>console := c\<rparr>) ps =
     (case export_loop P ss w ps of (e, v, qs) \<Rightarrow> (e, v\<lparr>console := c'\<rparr>, qs))"
      by (rule Cons.IH)
    with Skip show ?thesis by simp
  next
    case (Drop msg)
    have "\<exists>c'. export_loop P ss ((w\<lparr>console := console w @ [Warn msg]\<rparr>)\<lparr>console := c @ [Warn msg]\<rparr>) ps =
     (case export_loop P ss (w\<lparr>console := console w @ [Warn msg]\<rparr>) ps of (e, v, qs) \<Rightarrow> (e, v\<lparr>console := c'\<rparr>, qs))"
      by (rule Cons.IH)
    with Drop show ?thesis by simp
  next
    case (Deliver req)
    let ?w' = "w\<lparr>issued := issued w @ [(name s, req)],
                this := (this w)\<lparr>pendingExports := pendingExports (this w) @ [length (issued w)]\<rparr>\<rparr>"
    have "\<exists>c'. export_loop P ss (?w'\<lparr>console := c\<rparr>) (ps @ [length (issued w)]) =
     (case export_loop P ss ?w' (ps @ [length (issued w)]) of (e, v, qs) \<Rightarrow> (e, v\<lparr>console := c'\<rparr>, qs))"
      by (rule Cons.IH)
    moreover have "?w'\<lparr>console := c\<rparr>
                   = w\<lparr>console := c, issued := issued w @ [(name s, req)],
                       this := (this w)\<lparr>pendingExports := pendingExports (this w) @ [length (issued w)]\<rparr>\<rparr>"
      by (cases w) simp
    ultimately show ?thesis using Deliver by (simp add: Let_def)
  next
    case (Throw e)
    then show ?thesis by (intro exI[of _ c]) simp
  qed
qed

lemma silenced_console [simp]: "silenced (w\<lparr>console := c\<rparr>) = silenced w"
  by (simp add: silenced_def)

lemma export_loop_drop_silenced:
  assumes "malformed P s"
  shows "(case export_loop P (s # ys) w ps of (e, v, qs) \<Rightarrow> (e, silenced v, qs))
         = (case export_loop P ys w ps of (e, v, qs) \<Rightarrow> (e, silenced v, qs))"
proof -
  from assms have "is_drop (export_body (this w) P s)" by (rule malformed_is_drop)
  then obtain msg where
    "export_loop P (s # ys) w ps = export_loop P ys (w\<lparr>console := console w @ [Warn msg]\<rparr>) ps"
    using is_drop_loop by blast
  moreover obtain c' where
    "export_loop P ys (w\<lparr>console := console w @ [Warn msg]\<rparr>) ps
     = (case export_loop P ys w ps of (e, v, qs) \<Rightarrow> (e, v\<lparr>console := c'\<rparr>, qs))"
    using export_loop_console by blast
  ultimately show ?thesis by (simp split: prod.splits)
qed

lemma export_finish_silenced:
  "silenced (export_finish c (e, v, qs)) = export_finish c (e, silenced v, qs)"
  by (cases e) (simp_all add: export_finish_def silenced_def)





text \<open>
  Claim C5. A recognized span with an invalid trace id, a missing function id, missing
  prompt messages or prompt messages that do not parse is logged and dropped, and the
  loop goes on with the rest of the batch. Up to the console output, exporting a batch
  that holds such a span is exporting the batch without it: the same requests, the
  same in-flight set, the same result for the batch.
\<close>

theorem malformed_span_dropped:
  assumes mal: "malformed P s"
  shows "(\<exists>msg. export_body (this w) P s = Drop msg
            \<and> export_loop P (s # rest) w ps
                = export_loop P rest (w\<lparr>console := console w @ [Warn msg]\<rparr>) ps)
         \<and> silenced (export P (xs @ s # ys) w) = silenced (export P (xs @ ys) w)"
proof
  from mal have "is_drop (export_body (this w) P s)" by (rule malformed_is_drop)
  then show "\<exists>msg. export_body (this w) P s = Drop msg
            \<and> export_loop P (s # rest) w ps
                = export_loop P rest (w\<lparr>console := console w @ [Warn msg]\<rparr>) ps"
    by (rule is_drop_loop)
next
  let ?w0 = "w\<lparr>calls := calls w + 1\<rparr>"
  have key: "(case export_loop P (xs @ s # ys) ?w0 [] of (e, v, qs) \<Rightarrow> (e, silenced v, qs))
             = (case export_loop P (xs @ ys) ?w0 [] of (e, v, qs) \<Rightarrow> (e, silenced v, qs))"
  proof (cases "export_loop P xs ?w0 []")
    case (fields e v qs)
    show ?thesis
    proof (cases e)
      case None
      with fields show ?thesis
        using export_loop_drop_silenced[OF mal, of ys v qs] by (simp add: export_loop_append)
    next
      case (Some err)
      with fields show ?thesis by (simp add: export_loop_append)
    qed
  qed
  have fin: "silenced (export P zs w)
             = export_finish (calls w)
                 (case export_loop P zs ?w0 [] of (e, v, qs) \<Rightarrow> (e, silenced v, qs))" for zs
    by (cases "export_loop P zs ?w0 []") (simp add: export_def export_finish_silenced)
  show "silenced (export P (xs @ s # ys) w) = silenced (export P (xs @ ys) w)"
    by (simp only: fin key)
qed

lemmas sample_defs =
  JSON_parse_sample_def sample_config_def sample_span_def valid_span_def
  span_without_messages_def unrecognized_span_def

lemma valid_span_body:
  "export_body self JSON_parse_sample valid_span
   = Deliver (build_request self valid_span ''01234567-89ab-cdef-0123-456789abcdef''
                (JStr ''f1'') (JArr []))"
  by (simp add: sample_defs export_body_def relevant_def formatTraceIdToUUID_def slice_def
      slice_from_def get_property_def Let_def)

lemma span_without_messages_body:
  "export_body self JSON_parse_sample span_without_messages
   = Drop ''Missing ai.prompt.messages for span ai.streamText.doStream''"
  by (simp add: sample_defs export_body_def relevant_def formatTraceIdToUUID_def slice_def
      slice_from_def get_property_def)

lemma unrecognized_span_body:
  "export_body self JSON_parse_sample unrecognized_span = Skip"
  by (simp add: sample_defs export_body_def relevant_def)

lemma span_without_messages_malformed: "malformed JSON_parse_sample span_without_messages"
  by (simp add: malformed_def sample_defs relevant_def get_property_def)

theorem malformed_span_dropped_witness:
  "malformed JSON_parse_sample span_without_messages
   \<and> map fst (issued (export JSON_parse_sample [span_without_messages, valid_span]
                        (boot sample_config)))
       = [name valid_span]
   \<and> console (export JSON_parse_sample [span_without_messages, valid_span] (boot sample_config))
       = [Warn ''Missing ai.prompt.messages for span ai.streamText.doStream'']
   \<and> silenced (export JSON_parse_sample [span_without_messages, valid_span] (boot sample_config))
       = silenced (export JSON_parse_sample [valid_span] (boot sample_config))"
  using malformed_span_dropped
          [OF span_without_messages_malformed, of "boot sample_config" "[valid_span]" "[]" "[]"
             "[valid_span]"]
  by (simp add: export_def export_finish_def valid_span_body span_without_messages_body
      span_without_messages_malformed boot_def Let_def silenced_def)



theorem falsy_required_attribute_dropped_witness:
  "relevant span_zero_functionId
   \<and> length (traceId (spanContext span_zero_functionId)) = 32
   \<and> get_property (attributes span_zero_functionId) ''ai.telemetry.functionId'' = JNum 0
   \<and> export_body (this (boot sample_config)) JSON_parse_sample span_zero_functionId
       = Drop ''Missing ai.telemetry.functionId for span ai.generateText.doGenerate''
   \<and> relevant span_empty_messages
   \<and> truthy (get_property (attributes span_empty_messages) ''ai.telemetry.functionId'')
   \<and> get_property (attributes span_empty_messages) ''ai.prompt.messages'' = JStr []
   \<and> export_body (this (boot sample_config)) JSON_parse_sample span_empty_messages
       = Drop ''Missing ai.prompt.messages for span ai.generateText.doGenerate''
   \<and> export_body (this (boot sample_config)) JSON_parse_sample span_empty_messages
       = export_body (this (boot sample_config)) JSON_parse_sample
           (without ''ai.prompt.messages'' span_empty_messages)
   \<and> relevant span_only_empty_messages
   \<and> length (traceId (spanContext span_only_empty_messages)) = 32
   \<and> get_property (attributes span_only_empty_messages) ''ai.prompt.messages'' = JStr []
   \<and> is_drop (export_body (this (boot sample_config)) JSON_parse_sample span_only_empty_messages)
   \<and> export_body (this (boot sample_config)) JSON_parse_sample span_only_empty_messages
       = export_body (this (boot sample_config)) JSON_parse_sample
           (without ''ai.prompt.messages'' span_only_empty_messages)"
proof -
  let ?self = "this (boot sample_config)"
  have r1: "relevant span_zero_functionId"
    and l1: "length (traceId (spanContext span_zero_functionId)) = 32"
    and g1: "get_property (attributes span_zero_functionId) ''ai.telemetry.functionId'' = JNum 0"
    and n1: "name span_zero_functionId = ''ai.generateText.doGenerate''"
    by (simp_all add: span_zero_functionId_def sample_span_def relevant_def get_property_def)
  have r2: "relevant span_empty_messages"
    and l2: "length (traceId (spanContext span_empty_messages)) = 32"
    and f2: "truthy (get_property (attributes span_empty_messages) ''ai.telemetry.functionId'')"
    and g2: "get_property (attributes span_empty_messages) ''ai.prompt.messages'' = JStr []"
    and n2: "name span_empty_messages = ''ai.generateText.doGenerate''"
    by (simp_all add: span_empty_messages_def sample_span_def relevant_def get_property_def)
  have r3: "relevant span_only_empty_messages"
    and l3: "length (traceId (spanContext span_only_empty_messages)) = 32"
    and g3: "get_property (attributes span_only_empty_messages) ''ai.prompt.messages'' = JStr []"
    by (simp_all add: span_only_empty_messages_def sample_span_def relevant_def get_property_def)
  from falsy_required_attribute_dropped
         [OF r1 l1, of "boot sample_config" JSON_parse_sample "[]" "[]"] g1
  have b1: "export_body ?self JSON_parse_sample span_zero_functionId
            = Drop (''Missing ai.telemetry.functionId for span '' @ name span_zero_functionId)"
    by blast
  from falsy_required_attribute_dropped
         [OF r2 l2, of "boot sample_config" JSON_parse_sample "[]" "[]"] f2 g2
  have b2: "export_body ?self JSON_parse_sample span_empty_messages
            = Drop (''Missing ai.prompt.messages for span '' @ name span_empty_messages)"
    and b3: "export_body ?self JSON_parse_sample span_empty_messages
             = export_body ?self JSON_parse_sample
                 (without ''ai.prompt.messages'' span_empty_messages)"
    by blast+
  from falsy_required_attribute_dropped
         [OF r3 l3, of "boot sample_config" JSON_parse_sample "[]" "[]"] g3
  have b4: "is_drop (export_body ?self JSON_parse_sample span_only_empty_messages)"
    and b5: "export_body ?self JSON_parse_sample span_only_empty_messages
             = export_body ?self JSON_parse_sample
                 (without ''ai.prompt.messages'' span_only_empty_messages)"
    by blast+
  from b1 n1 have b1': "export_body ?self JSON_parse_sample span_zero_functionId
       = Drop ''Missing ai.telemetry.functionId for span ai.generateText.doGenerate''"
    by simp
  from b2 n2 have b2': "export_body ?self JSON_parse_sample span_empty_messages
       = Drop ''Missing ai.prompt.messages for span ai.generateText.doGenerate''"
    by simp
  from r1 l1 g1 b1' r2 f2 g2 b2' b3 r3 l3 g3 b4 b5 show ?thesis by blast
qed

section \<open>Deliveries and the in-flight array\<close>

lemma in_flight_iff:
  "p \<in> set (in_flight w) \<longleftrightarrow> p < length (issued w) \<and> map_of (settled w) p = None"
  by (auto simp: in_flight_def)

lemma export_loop_frame:
  "export_loop P ss w ps = (e, v, qs) \<Longrightarrow>
     settled v = settled w \<and> flushed v = flushed w \<and> flushes v = flushes w
     \<and> flush_calls v = flush_calls w \<and> results v = results w \<and> batches v = batches w
     \<and> thrown v = thrown w \<and> calls v = calls w"
proof (induction ss arbitrary: w ps)
  case Nil
  then show ?case by simp
next
  case (Cons s ss)
  show ?case
  proof (cases "export_body (this w) P s")
    case Skip
    with Cons.prems have "export_loop P ss w ps = (e, v, qs)" by simp
    from Cons.IH[OF this] show ?thesis .
  next
    case (Drop msg)
    with Cons.prems
    have "export_loop P ss (w\<lparr>console := console w @ [Warn msg]\<rparr>) ps = (e, v, qs)" by simp
    from Cons.IH[OF this] show ?thesis by simp
  next
    case (Deliver req)
    with Cons.prems
    have "export_loop P ss
            (w\<lparr>issued := issued w @ [(name s, req)],
               this := (this w)\<lparr>pendingExports := pendingExports (this w) @ [length (issued w)]\<rparr>\<rparr>)
            (ps @ [length (issued w)]) = (e, v, qs)"
      by (simp add: Let_def)
    from Cons.IH[OF this] show ?thesis by simp
  next
    case (Throw err)
    with Cons.prems show ?thesis by auto
  qed
qed

lemma export_loop_issues:
  "export_loop P ss w ps = (e, v, qs) \<Longrightarrow>
     \<exists>n. length (issued v) = length (issued w) + n
       \<and> pendingExports (this v)
           = pendingExports (this w) @ [length (issued w)..<length (issued w) + n]
       \<and> qs = ps @ [length (issued w)..<length (issued w) + n]"
proof (induction ss arbitrary: w ps)
  case Nil
  then show ?case by (intro exI[of _ 0]) simp
next
  case (Cons s ss)
  show ?case
  proof (cases "export_body (this w) P s")
    case Skip
    with Cons.prems have "export_loop P ss w ps = (e, v, qs)" by simp
    from Cons.IH[OF this] show ?thesis .
  next
    case (Drop msg)
    with Cons.prems
    have "export_loop P ss (w\<lparr>console := console w @ [Warn msg]\<rparr>) ps = (e, v, qs)" by simp
    from Cons.IH[OF this] show ?thesis by simp
  next
    case (Deliver req)
    let ?n0 = "length (issued w)"
    from Deliver Cons.prems
    have "export_loop P ss
            (w\<lparr>issued := issued w @ [(name s, req)],
               this := (this w)\<lparr>pendingExports := pendingExports (this w) @ [?n0]\<rparr>\<rparr>)
            (ps @ [?n0]) = (e, v, qs)"
      by (simp add: Let_def)
    from Cons.IH[OF this] obtain n where
      n: "length (issued v) = Suc ?n0 + n"
         "pendingExports (this v) = (pendingExports (this w) @ [?n0]) @ [Suc ?n0..<Suc ?n0 + n]"
         "qs = (ps @ [?n0]) @ [Suc ?n0..<Suc ?n0 + n]"
      by auto
    have upt: "[?n0..<?n0 + Suc n] = ?n0 # [Suc ?n0..<Suc ?n0 + n]"
      by (simp add: upt_conv_Cons)
    have 1: "length (issued v) = ?n0 + Suc n" using n(1) by simp
    have 2: "pendingExports (this v) = pendingExports (this w) @ [?n0..<?n0 + Suc n]"
      unfolding upt using n(2) by simp
    have 3: "qs = ps @ [?n0..<?n0 + Suc n]"
      unfolding upt using n(3) by simp
    from 1 2 3 show ?thesis by blast
  next
    case (Throw err)
    with Cons.prems show ?thesis by (intro exI[of _ 0]) auto
  qed
qed

lemma export_effect:
  "\<exists>n. length (issued (export P spans w)) = length (issued w) + n
     \<and> pendingExports (this (export P spans w))
         = pendingExports (this w) @ [length (issued w)..<length (issued w) + n]
     \<and> settled (export P spans w) = settled w
     \<and> flushed (export P spans w) = flushed w
     \<and> flushes (export P spans w) = flushes w
     \<and> flush_calls (export P spans w) = flush_calls w
     \<and> (results (export P spans w) = results w
        \<or> results (export P spans w) = results w @ [(calls w, \<lparr>code = 0, error = None\<rparr>)])"
proof -
  let ?w0 = "w\<lparr>calls := calls w + 1\<rparr>"
  obtain e v qs where loop: "export_loop P spans ?w0 [] = (e, v, qs)"
    by (cases "export_loop P spans ?w0 []") blast
  from export_loop_frame[OF loop]
  have fr: "settled v = settled w" "flushed v = flushed w" "flushes v = flushes w"
    "flush_calls v = flush_calls w" "results v = results w"
    by simp_all
  from export_loop_issues[OF loop] obtain n where
    n: "length (issued v) = length (issued w) + n"
       "pendingExports (this v)
        = pendingExports (this w) @ [length (issued w)..<length (issued w) + n]"
    by auto
  have ex: "export P spans w = export_finish (calls w) (e, v, qs)"
    by (simp only: export_def loop)
  show ?thesis
    by (rule exI[of _ n], cases e) (simp_all add: ex export_finish_def fr n)
qed

lemma catch_handler_fulfilled: "snd (catch_handler nm r) = Fulfilled"
  by (cases r) (simp_all add: catch_handler_def)

lemma settle_enabled:
  assumes "p < length (issued w)" and "map_of (settled w) p = None"
  shows "issued (settle p out w) = issued w"
    and "settled (settle p out w) = settled w @ [(p, Fulfilled)]"
    and "pendingExports (this (settle p out w)) = filter (\<lambda>q. q \<noteq> p) (pendingExports (this w))"
    and "flushed (settle p out w) = flushed w"
    and "flushes (settle p out w) = flushes w"
    and "flush_calls (settle p out w) = flush_calls w"
    and "results (settle p out w) = results w"
  using assms catch_handler_fulfilled[of "fst (issued w ! p)" "then_handler out"]
  by (auto simp: settle_def finally_handler_def split: prod.splits)

lemma settle_disabled:
  "\<not> (p < length (issued w) \<and> map_of (settled w) p = None) \<Longrightarrow> settle p out w = w"
  by (auto simp: settle_def)

lemma sound_settled_Fulfilled:
  "sound w \<Longrightarrow> map_of (settled w) p = Some r \<Longrightarrow> r = Fulfilled \<and> p < length (issued w)"
  by (auto simp: sound_def list_all_iff dest!: map_of_SomeD)

lemma sound_fresh_unsettled:
  "sound w \<Longrightarrow> length (issued w) \<le> p \<Longrightarrow> map_of (settled w) p = None"
  using sound_settled_Fulfilled[of w p] by (cases "map_of (settled w) p") auto

lemma sound_not_rejected: "sound w \<Longrightarrow> \<not> is_rejected w p"
  using sound_settled_Fulfilled[of w p]
  by (auto simp: is_rejected_def split: option.splits settlement.splits)

lemma sound_no_rejections: "sound w \<Longrightarrow> rejections w ps = []"
proof -
  assume s: "sound w"
  have "(case map_of (settled w) p of Some (Rejected e) \<Rightarrow> Some e | _ \<Rightarrow> None) = None" for p
    using sound_settled_Fulfilled[OF s, of p]
    by (auto split: option.splits settlement.splits)
  then show ?thesis
    by (simp add: rejections_def List.map_filter_def)
qed

lemma sound_boot: "sound (boot config)"
  by (simp add: sound_def boot_def constructor_def in_flight_def)


lemma sound_pending_old:
  "sound w \<Longrightarrow> p \<in> set (pendingExports (this w)) \<Longrightarrow>
   p < length (issued w) \<and> map_of (settled w) p = None"
  by (auto simp: sound_def in_flight_iff)

lemma sound_export:
  assumes s: "sound w"
  shows "sound (export P spans w)"
proof -
  let ?w' = "export P spans w"
  let ?n0 = "length (issued w)"
  from export_effect[of P spans w] obtain n where
    len: "length (issued ?w') = ?n0 + n"
    and pend: "pendingExports (this ?w') = pendingExports (this w) @ [?n0..<?n0 + n]"
    and st: "settled ?w' = settled w"
    and fl: "flushed ?w' = flushed w" "flushes ?w' = flushes w" "flush_calls ?w' = flush_calls w"
    and res: "results ?w' = results w
              \<or> results ?w' = results w @ [(calls w, \<lparr>code = 0, error = None\<rparr>)]"
    by blast
  have old: "\<forall>p\<in>set (pendingExports (this w)). p < ?n0"
    using sound_pending_old[OF s] by blast
  have d: "distinct (pendingExports (this ?w'))"
    using s old by (auto simp: pend sound_def)
  have sub: "set (pendingExports (this ?w')) \<subseteq> set (in_flight ?w')"
  proof
    fix p assume "p \<in> set (pendingExports (this ?w'))"
    then consider "p \<in> set (pendingExports (this w))" | "?n0 \<le> p \<and> p < ?n0 + n"
      by (auto simp: pend)
    then show "p \<in> set (in_flight ?w')"
    proof cases
      case 1
      from sound_pending_old[OF s 1] show ?thesis by (simp add: in_flight_iff len st)
    next
      case 2
      with sound_fresh_unsettled[OF s, of p] show ?thesis by (simp add: in_flight_iff len st)
    qed
  qed
  have se: "list_all (\<lambda>pr. fst pr < length (issued ?w') \<and> snd pr = Fulfilled) (settled ?w')"
    using s by (auto simp: sound_def list_all_iff st len)
  have r: "list_all (\<lambda>cr. snd cr = \<lparr>code = 0, error = None\<rparr>) (results ?w')"
    using s res by (auto simp: sound_def)
  from d sub se r s show ?thesis by (simp add: sound_def fl)
qed


lemma map_of_snoc:
  "map_of (xs @ [(k, v)]) q = (case map_of xs q of Some r \<Rightarrow> Some r | None \<Rightarrow> if q = k then Some v else None)"
  by (simp add: map_add_def split: option.splits)

lemma in_flight_settle:
  assumes "p < length (issued w)" and "map_of (settled w) p = None"
  shows "set (in_flight (settle p out w)) = set (in_flight w) - {p}"
  using assms
  by (auto simp: in_flight_iff settle_enabled[OF assms] map_of_snoc split: option.splits if_splits)

lemma sound_settle:
  assumes s: "sound w"
  shows "sound (settle p out w)"
proof (cases "p < length (issued w) \<and> map_of (settled w) p = None")
  case False
  then show ?thesis using s by (simp add: settle_disabled)
next
  case True
  then have en: "p < length (issued w)" "map_of (settled w) p = None" by auto
  note eff = settle_enabled[OF en, of out]
  have "distinct (pendingExports (this (settle p out w)))"
    using s by (simp add: eff sound_def)
  moreover have "set (pendingExports (this (settle p out w))) \<subseteq> set (in_flight (settle p out w))"
    using s by (auto simp: eff(3) in_flight_settle[OF en] sound_def)
  moreover have "list_all (\<lambda>pr. fst pr < length (issued (settle p out w)) \<and> snd pr = Fulfilled)
                   (settled (settle p out w))"
    using s en by (simp add: eff sound_def)
  ultimately show ?thesis using s by (simp add: sound_def eff)
qed


lemma allSettled_then_effect:
  assumes s: "sound w"
  shows "allSettled_then c w = w
         \<or> allSettled_then c w
             = w\<lparr>batches := filter (\<lambda>b. fst b \<noteq> c) (batches w),
                 results := results w @ [(c, \<lparr>code = 0, error = None\<rparr>)]\<rparr>"
proof (cases "map_of (batches w) c")
  case None
  then show ?thesis by (simp add: allSettled_then_def)
next
  case (Some promises)
  have "filter (is_rejected w) promises = []"
    using sound_not_rejected[OF s] by (simp add: filter_empty_conv)
  with Some show ?thesis by (simp add: allSettled_then_def Let_def)
qed

lemma sound_allSettled_then:
  assumes s: "sound w"
  shows "sound (allSettled_then c w)"
proof -
  from allSettled_then_effect[OF s, of c] show ?thesis
  proof
    assume "allSettled_then c w = w"
    with s show ?thesis by simp
  next
    assume "allSettled_then c w
             = w\<lparr>batches := filter (\<lambda>b. fst b \<noteq> c) (batches w),
                 results := results w @ [(c, \<lparr>code = 0, error = None\<rparr>)]\<rparr>"
    with s show ?thesis by (simp add: sound_def in_flight_def)
  qed
qed


lemma list_all_less_Suc:
  "list_all (\<lambda>b. fst b < (n::nat)) xs \<Longrightarrow> list_all (\<lambda>b. fst b < Suc n) xs"
  by (auto simp: list_all_iff)

lemma sound_forceFlush: "sound w \<Longrightarrow> sound (forceFlush w)"
  by (simp add: sound_def forceFlush_def in_flight_def list_all_less_Suc)

lemma sound_shutdown: "sound w \<Longrightarrow> sound (shutdown w)"
  by (simp add: sound_def shutdown_def in_flight_def list_all_less_Suc)


lemma resume_effect:
  assumes s: "sound w" and f: "map_of (flushes w) f = Some (kind, snapshot)"
  shows "resume f w =
           (if list_all (is_settled w) snapshot then
              w\<lparr>flushes := filter (\<lambda>b. fst b \<noteq> f) (flushes w),
                flushed := flushed w @ [(f, Fulfilled)],
                this := (if kind = InShutdown then (this w)\<lparr>pendingExports := []\<rparr> else this w)\<rparr>
            else w)"
  by (simp add: resume_def f sound_no_rejections[OF s])

lemma resume_idle: "map_of (flushes w) f = None \<Longrightarrow> resume f w = w"
  by (simp add: resume_def)

lemma list_all_filter: "list_all Q xs \<Longrightarrow> list_all Q (filter R xs)"
  by (simp add: list_all_iff)

lemma sound_resume:
  assumes s: "sound w"
  shows "sound (resume f w)"
proof (cases "map_of (flushes w) f")
  case None
  with s show ?thesis by (simp add: resume_idle)
next
  case (Some ks)
  then obtain kind snapshot where f: "map_of (flushes w) f = Some (kind, snapshot)"
    by (cases ks) simp
  show ?thesis
  proof (cases "list_all (is_settled w) snapshot")
    case False
    with s show ?thesis by (simp add: resume_effect[OF s f])
  next
    case True
    from s have fl: "list_all (\<lambda>b. fst b < flush_calls w) (filter (\<lambda>b. fst b \<noteq> f) (flushes w))"
      by (simp add: sound_def list_all_filter)
    show ?thesis
    proof (cases "kind = InShutdown")
      case True
      with \<open>list_all (is_settled w) snapshot\<close> s fl show ?thesis
        by (simp add: resume_effect[OF s f] sound_def in_flight_def)
    next
      case False
      with \<open>list_all (is_settled w) snapshot\<close> s fl show ?thesis
        by (simp add: resume_effect[OF s f] sound_def in_flight_def)
    qed
  qed
qed


lemma sound_step: "sound w \<Longrightarrow> sound (step P e w)"
  by (cases e)
     (simp_all add: step_def sound_export sound_settle sound_allSettled_then sound_forceFlush
        sound_shutdown sound_resume)


lemma sound_run: "sound w \<Longrightarrow> sound (run P evs w)"
  unfolding run_def by (induction evs arbitrary: w) (simp_all add: sound_step)


lemma sound_reachable: "sound (run P evs (boot config))"
  by (rule sound_run) (rule sound_boot)




























lemma callback_always_success:
  "list_all (\<lambda>cr. snd cr = \<lparr>code = 0, error = None\<rparr>) (results (run P evs (boot config)))"
  using sound_reachable[of P evs config] by (simp add: sound_def)


lemma span_object_messages_body:
  "export_body self JSON_parse_sample span_object_messages
   = Throw (TypeError ''messages.push is not a function'')"
  by (simp add: span_object_messages_def sample_defs export_body_def relevant_def
      formatTraceIdToUUID_def slice_def slice_from_def get_property_def Let_def
      assistant_message_def)


lemma name_valid_span: "name valid_span = ''ai.generateText.doGenerate''"
  by (simp add: valid_span_def sample_span_def)

lemmas event_defs =
  run_def step_def settle_def then_handler_def catch_handler_def finally_handler_def
  allSettled_then_def is_settled_def is_rejected_def forceFlush_def shutdown_def resume_def
  rejections_def List.map_filter_def in_flight_def boot_def constructor_def


text \<open>
  Claim C1, at the input where the code departs from it. A batch of two valid spans is
  exported; the first delivery ends with status 500, the second with status 200. The
  failure is logged, but the callback of the batch receives \<^verbatim>\<open>{code: 0}\<close>: the
  \<^verbatim>\<open>catch\<close> handler turns the rejection into a fulfilled promise, so
  \<^verbatim>\<open>Promise.allSettled\<close> sees no rejected delivery.
\<close>

theorem failed_delivery_reported_as_success:
  "results (run JSON_parse_sample
              [CallExport [valid_span, valid_span], Settles 0 (Response 500),
               Settles 1 (Response 200), BatchSettled 0]
              (boot sample_config))
     = [(0, \<lparr>code = 0, error = None\<rparr>)]
   \<and> console (run JSON_parse_sample
              [CallExport [valid_span, valid_span], Settles 0 (Response 500),
               Settles 1 (Response 200), BatchSettled 0]
              (boot sample_config))
     = [LogError ''Failed to export span ai.generateText.doGenerate to Freeplay: HTTP error! status: 500'']"
  by (simp add: event_defs export_def export_finish_def valid_span_body name_valid_span Let_def
      dec.simps)

text \<open>
  Claim C3, at the input where the code departs from it. The prompt messages of the
  span are the JSON text of an object and the response text is present. The parsed
  value has no \<^verbatim>\<open>push\<close> method, so \<^verbatim>\<open>export\<close> is left by a TypeError, and
  the callback of this call is never invoked.
\<close>

theorem export_throws_on_object_messages:
  "thrown (export JSON_parse_sample [span_object_messages] (boot sample_config))
     = [(0, TypeError ''messages.push is not a function'')]
   \<and> results (run JSON_parse_sample [CallExport [span_object_messages], BatchSettled 0]
                (boot sample_config)) = []"
  by (simp add: event_defs export_def export_finish_def span_object_messages_body)





end
